theory Spec2Isabelle
  imports
    Main
    "HOL-Library.Sublist"
    "HOL-Library.Multiset"
    "HOL-Library.Log_Nat"
    "HOL-Library.AList"
    "HOL-Library.Char_ord"
    "HOL-Library.List_Lexorder"
begin

section \<open>JavaScript values used by both applications\<close>

text \<open>
  The repository holds two browser applications: the match dashboard
  (\<^verbatim>\<open>FilterManager\<close>, \<^verbatim>\<open>FilterPresetManager\<close>, \<^verbatim>\<open>DataManager\<close>) and the
  statistics page (\<^verbatim>\<open>calcAccuracy\<close>, \<^verbatim>\<open>getBestLeague\<close>, \<^verbatim>\<open>checkIs...Correct\<close>).
  Strings are \<^typ>\<open>string\<close>; \<^verbatim>\<open>undefined\<close> and \<^verbatim>\<open>null\<close> are \<^term>\<open>None\<close> of an
  option type; an exception is a value of \<^verbatim>\<open>js_error\<close> (\<open>OtherError\<close> for any thrown
  value that is none of the named errors).
\<close>

datatype js_error = TypeError | SyntaxError | ReferenceError | RangeError | OtherError

text \<open>\<^verbatim>\<open>s.includes(t)\<close>: \<open>t\<close> occurs in \<open>s\<close> as a contiguous run of characters.\<close>

definition String_includes :: "string \<Rightarrow> string \<Rightarrow> bool" where
  "String_includes s t = sublist t s"

text \<open>
  \<^verbatim>\<open>s.split(sep)\<close>: the pieces of \<open>s\<close> between the occurrences of \<open>sep\<close>, found from
  the left; with the empty separator, the characters of \<open>s\<close>.
\<close>

function split_from :: "string \<Rightarrow> string \<Rightarrow> string \<Rightarrow> string list" where
  "split_from sep cur [] = [rev cur]"
| "split_from sep cur (c # cs) =
     (if sep \<noteq> [] \<and> prefix sep (c # cs)
      then rev cur # split_from sep [] (drop (length sep) (c # cs))
      else split_from sep (c # cur) cs)"
  by pat_completeness auto
termination
  by (relation "measure (\<lambda>(sep, cur, s). length s)") auto

definition String_split :: "string \<Rightarrow> string \<Rightarrow> string list" where
  "String_split s sep = (if sep = [] then map (\<lambda>c. [c]) s else split_from sep [] s)"

text \<open>\<^verbatim>\<open>xs[i]\<close> on an array: \<^verbatim>\<open>undefined\<close> outside \<open>0 .. length - 1\<close>.\<close>

definition elem_at :: "'a list \<Rightarrow> int \<Rightarrow> 'a option" where
  "elem_at xs i = (if 0 \<le> i \<and> i < int (length xs) then Some (xs ! nat i) else None)"

text \<open>
  A JavaScript number is a rational or \<^verbatim>\<open>NaN\<close> (\<^term>\<open>None\<close>); every comparison
  with \<^verbatim>\<open>NaN\<close> is false.
\<close>

type_synonym number = "rat option"

definition js_lt :: "number \<Rightarrow> number \<Rightarrow> bool" where
  "js_lt a b = (case (a, b) of (Some x, Some y) \<Rightarrow> x < y | _ \<Rightarrow> False)"

definition js_gt :: "number \<Rightarrow> number \<Rightarrow> bool" where
  "js_gt a b = js_lt b a"

definition js_eq :: "number \<Rightarrow> number \<Rightarrow> bool" where
  "js_eq a b = (case (a, b) of (Some x, Some y) \<Rightarrow> x = y | _ \<Rightarrow> False)"

definition js_ge :: "number \<Rightarrow> number \<Rightarrow> bool" where
  "js_ge a b = (case (a, b) of (Some x, Some y) \<Rightarrow> y \<le> x | _ \<Rightarrow> False)"

definition js_add :: "number \<Rightarrow> number \<Rightarrow> number" where
  "js_add a b = (case (a, b) of (Some x, Some y) \<Rightarrow> Some (x + y) | _ \<Rightarrow> None)"

definition js_sub :: "number \<Rightarrow> number \<Rightarrow> number" where
  "js_sub a b = (case (a, b) of (Some x, Some y) \<Rightarrow> Some (x - y) | _ \<Rightarrow> None)"

text \<open>
  \<^verbatim>\<open>xs.sort(compare)\<close>: stable, an element stays in front of another unless the
  comparison of the two is positive; a comparison that is \<^verbatim>\<open>NaN\<close> counts as zero. (With
  such comparisons the order is left to the engine; the model takes the order of the
  stable insertion.)
\<close>

fun insort_by :: "('a \<Rightarrow> 'a \<Rightarrow> number) \<Rightarrow> 'a \<Rightarrow> 'a list \<Rightarrow> 'a list" where
  "insort_by compare x [] = [x]"
| "insort_by compare x (y # ys) =
     (if js_gt (compare x y) (Some 0) then y # insort_by compare x ys else x # y # ys)"

definition Array_sort :: "('a \<Rightarrow> 'a \<Rightarrow> number) \<Rightarrow> 'a list \<Rightarrow> 'a list" where
  "Array_sort compare xs = foldr (insort_by compare) xs []"

text \<open>
  \<^verbatim>\<open>s.toLowerCase()\<close>. A character of the model is a code unit below 256; the
  upper-case letters among them are \<open>A\<close> to \<open>Z\<close> and the code units 192 to 222 without
  the multiplication sign 215, and each has its lower-case letter 32 places further.
\<close>

definition is_upper :: "char \<Rightarrow> bool" where
  "is_upper c =
     (CHR ''A'' \<le> c \<and> c \<le> CHR ''Z'' \<or>
      (192::nat) \<le> of_char c \<and> of_char c \<le> (222::nat) \<and> of_char c \<noteq> (215::nat))"

definition toLowerCase :: "string \<Rightarrow> string" where
  "toLowerCase s = map (\<lambda>c. if is_upper c then char_of (of_char c + (32::nat)) else c) s"

subsection \<open>Properties inherited from \<^verbatim>\<open>Object.prototype\<close>\<close>

text \<open>
  An object literal inherits these properties; reading one of them from an object
  that has no own property of that name yields a function (or, for \<^verbatim>\<open>__proto__\<close>,
  the prototype object), which is truthy. Assigning to \<^verbatim>\<open>__proto__\<close> replaces the
  prototype and creates no own property.
\<close>

definition Object_prototype_names :: "string list" where
  "Object_prototype_names =
     [''constructor'', ''__defineGetter__'', ''__defineSetter__'', ''hasOwnProperty'',
      ''__lookupGetter__'', ''__lookupSetter__'', ''isPrototypeOf'',
      ''propertyIsEnumerable'', ''toString'', ''valueOf'', ''__proto__'',
      ''toLocaleString'']"

text \<open>
  \<^verbatim>\<open>Object.entries\<close> lists the own properties whose names are array indices (the
  canonical decimal text of an integer below \<open>2^32 - 1\<close>) first, in numeric order, and
  then the other names in the order of their creation.
\<close>

definition is_digit :: "char \<Rightarrow> bool" where
  "is_digit c = (CHR ''0'' \<le> c \<and> c \<le> CHR ''9'')"

definition decimal_value :: "string \<Rightarrow> int" where
  "decimal_value s = fold (\<lambda>c n. 10 * n + (of_char c - of_char CHR ''0'')) s 0"

definition is_array_index :: "string \<Rightarrow> bool" where
  "is_array_index s =
     (s \<noteq> [] \<and> list_all is_digit s \<and> (s = ''0'' \<or> hd s \<noteq> CHR ''0'') \<and>
      decimal_value s < 4294967295)"

definition Object_entries :: "(string \<times> 'v) list \<Rightarrow> (string \<times> 'v) list" where
  "Object_entries own =
     sort_key (\<lambda>(k, v). decimal_value k) (filter (\<lambda>(k, v). is_array_index k) own) @
     filter (\<lambda>(k, v). \<not> is_array_index k) own"

subsection \<open>Double-precision arithmetic\<close>

text \<open>
  The finite doubles are rationals. \<open>double_of x\<close> is the double nearest to \<open>x\<close>
  (53 significant bits, ties to the even significand, gradual underflow), for
  \<open>x\<close> of magnitude below \<open>2^1024\<close>; division and multiplication of doubles round the
  exact result with it. \<^verbatim>\<open>Math.round\<close> takes the nearest integer, a tie upwards.
\<close>

definition pow2 :: "int \<Rightarrow> rat" where
  "pow2 e = (if 0 \<le> e then 2 ^ nat e else 1 / 2 ^ nat (- e))"

definition binary_exponent :: "rat \<Rightarrow> int" where
  "binary_exponent x =
     (let (p, q) = quotient_of x; e = bitlen p - bitlen q
      in if pow2 e \<le> x then e else e - 1)"

definition round_half_even :: "rat \<Rightarrow> int" where
  "round_half_even x =
     (let f = \<lfloor>x\<rfloor>; r = x - of_int f
      in if r < 1 / 2 then f else if 1 / 2 < r then f + 1 else if even f then f else f + 1)"

definition double_of :: "rat \<Rightarrow> rat" where
  "double_of x =
     (if x = 0 then 0
      else let e = max (binary_exponent \<bar>x\<bar>) (- 1022); u = pow2 (e - 52)
           in of_int (round_half_even (x / u)) * u)"

definition fdiv :: "rat \<Rightarrow> rat \<Rightarrow> rat" where
  "fdiv a b = double_of (a / b)"

definition fmul :: "rat \<Rightarrow> rat \<Rightarrow> rat" where
  "fmul a b = double_of (a * b)"

definition Math_round :: "rat \<Rightarrow> int" where
  "Math_round x = \<lfloor>x + 1 / 2\<rfloor>"

section \<open>The statistics page: accuracy checks\<close>

text \<open>
  A score field of a match is \<^verbatim>\<open>null\<close>, the empty string, a goal count (a number or
  its decimal text; \<^verbatim>\<open>parseFloat\<close> reads both as the same number), or something else
  that \<^verbatim>\<open>parseFloat\<close> reads as \<^verbatim>\<open>NaN\<close>: an absent key (\<^verbatim>\<open>undefined\<close>) or a text that
  does not start with a number.
\<close>

datatype score = Null | Empty | Score nat | Unreadable

fun parseFloat :: "score \<Rightarrow> number" where
  "parseFloat Null = None"
| "parseFloat Empty = None"
| "parseFloat (Score n) = Some (of_nat n)"
| "parseFloat Unreadable = None"

record stat_match =
  country :: string
  home_score :: score
  away_score :: score
  result_suggestion :: "string option"
  goals_suggestion :: "string option"

definition isMatchCompleted :: "'a stat_match_scheme \<Rightarrow> bool" where
  "isMatchCompleted m =
     (home_score m \<noteq> Null \<and> home_score m \<noteq> Empty \<and>
      away_score m \<noteq> Null \<and> away_score m \<noteq> Empty)"

definition checkIsForecastCorrect :: "'a stat_match_scheme \<Rightarrow> bool option" where
  "checkIsForecastCorrect m =
     (case result_suggestion m of
        None \<Rightarrow> None
      | Some s \<Rightarrow>
          if s = [] \<or> \<not> isMatchCompleted m then None
          else if String_includes s ''1'' \<and>
                  js_gt (parseFloat (home_score m)) (parseFloat (away_score m)) then Some True
          else if String_includes s ''X'' \<and>
                  js_eq (parseFloat (home_score m)) (parseFloat (away_score m)) then Some True
          else if String_includes s ''2'' \<and>
                  js_lt (parseFloat (home_score m)) (parseFloat (away_score m)) then Some True
          else Some False)"

definition checkIsGoalsCorrect :: "'a stat_match_scheme \<Rightarrow> bool option" where
  "checkIsGoalsCorrect m =
     (case goals_suggestion m of
        None \<Rightarrow> None
      | Some s \<Rightarrow>
          if s = [] \<or> \<not> isMatchCompleted m then None
          else
            let totalGoals = js_add (parseFloat (home_score m)) (parseFloat (away_score m)) in
            if String_includes s ''Over 2.5'' \<and> js_gt totalGoals (Some 2.5) then Some True
            else if String_includes s ''Over 1.5'' \<and> js_gt totalGoals (Some 1.5) then Some True
            else if String_includes s ''Under 3.5'' \<and> js_lt totalGoals (Some 3.5) then Some True
            else if String_includes s ''BTTS Yes'' \<and>
                    js_gt (parseFloat (home_score m)) (Some 0) \<and>
                    js_gt (parseFloat (away_score m)) (Some 0) then Some True
            else if String_includes s ''BTTS No'' \<and>
                    (js_eq (parseFloat (home_score m)) (Some 0) \<or>
                     js_eq (parseFloat (away_score m)) (Some 0)) then Some True
            else Some False)"

definition checkIsBothCorrect :: "'a stat_match_scheme \<Rightarrow> bool option" where
  "checkIsBothCorrect m =
     (let forecast = checkIsForecastCorrect m;
          goal = checkIsGoalsCorrect m
      in case (forecast, goal) of
           (Some f, Some g) \<Rightarrow> Some (f \<and> g)
         | _ \<Rightarrow> None)"

section \<open>The statistics page: aggregation\<close>

text \<open>
  \<^verbatim>\<open>calcAccuracy(matches, checkFn)\<close>: the checks that are not \<^verbatim>\<open>undefined\<close> are
  counted, and the share of the true ones is turned into a percentage.
\<close>

definition calcAccuracy :: "'m list \<Rightarrow> ('m \<Rightarrow> bool option) \<Rightarrow> int" where
  "calcAccuracy matches checkFn =
     (let valid = filter (\<lambda>v. v \<noteq> None) (map checkFn matches);
          correct = length (filter (\<lambda>v. v = Some True) valid)
      in if length valid \<noteq> 0
         then Math_round (fmul (fdiv (of_nat correct) (of_nat (length valid))) 100)
         else 0)"

text \<open>\<^verbatim>\<open>ChartsManager.calculateAccuracy(correct, total)\<close> of the charts module.\<close>

definition calculateAccuracy :: "nat \<Rightarrow> nat \<Rightarrow> int" where
  "calculateAccuracy correct tot =
     (if 0 < tot then Math_round (fmul (fdiv (of_nat correct) (of_nat tot)) 100) else 0)"

text \<open>
  \<^verbatim>\<open>getBestLeague(matches)\<close>. The object \<^verbatim>\<open>stats\<close> is the list of its own properties
  (league, correct, total) in the order of their creation; \<open>tot\<close> stands for
  \<^verbatim>\<open>total\<close>. The \<^verbatim>\<open>forEach\<close> body is \<open>count_match\<close>: \<^verbatim>\<open>stats[c]\<close> of a name inherited from \<^verbatim>\<open>Object.prototype\<close> is truthy,
  so no own property is created for it and the increments change no own property.
\<close>

type_synonym league_stats = "(string \<times> nat \<times> nat) list"

definition count_match :: "league_stats \<Rightarrow> 'a stat_match_scheme \<Rightarrow> league_stats" where
  "count_match stats m =
     (let c = country m;
          stats1 = (if map_of stats c = None \<and> c \<notin> set Object_prototype_names
                    then stats @ [(c, 0, 0)] else stats)
      in case checkIsBothCorrect m of
           None \<Rightarrow> stats1
         | Some both \<Rightarrow>
             let stats2 = AList.map_entry c (\<lambda>(correct, tot). (correct, tot + 1)) stats1
             in if both
                then AList.map_entry c (\<lambda>(correct, tot). (correct + 1, tot)) stats2
                else stats2)"

definition league_stats_of :: "'a stat_match_scheme list \<Rightarrow> league_stats" where
  "league_stats_of matches = fold (\<lambda>m stats. count_match stats m) matches []"

text \<open>The accuracy of one group: \<^verbatim>\<open>total ? correct / total : 0\<close>.\<close>

definition league_acc :: "nat \<times> nat \<Rightarrow> rat" where
  "league_acc ct = (case ct of (correct, tot) \<Rightarrow>
     if tot \<noteq> 0 then fdiv (of_nat correct) (of_nat tot) else 0)"

text \<open>The callback of \<^verbatim>\<open>reduce\<close>: a later group wins only with a strictly higher accuracy.\<close>

definition reduce_best :: "string \<times> rat \<Rightarrow> string \<times> nat \<times> nat \<Rightarrow> string \<times> rat" where
  "reduce_best best e =
     (case e of (league, ct) \<Rightarrow>
        let acc = league_acc ct in if snd best < acc then (league, acc) else best)"

definition getBestLeague :: "'a stat_match_scheme list \<Rightarrow> string" where
  "getBestLeague matches =
     fst (fold (\<lambda>e best. reduce_best best e) (Object_entries (league_stats_of matches)) ([], 0))"

section \<open>The match dashboard: data\<close>

text \<open>
  A match carries its \<^verbatim>\<open>match-info\<close> and its \<^verbatim>\<open>model-predictions\<close>; the predictions
  are only handed to \<^verbatim>\<open>eval\<close>, so their type is left open. The records come from
  the JSON document as they are: \<^verbatim>\<open>parseMatchData\<close> only asks for the two keys
  \<^verbatim>\<open>match-info\<close> and \<^verbatim>\<open>model-predictions\<close>. \<^verbatim>\<open>Date\<close> is the number that the value of
  the key converts to in a comparison: the kick-off time, or \<^verbatim>\<open>NaN\<close> when the key is
  absent or holds a text that is no number. A final score \<^verbatim>\<open>FTHG\<close>, \<^verbatim>\<open>FTAG\<close> is an absent
  key (\<^verbatim>\<open>undefined\<close>), \<^verbatim>\<open>null\<close>, or a goal count.
\<close>

datatype final_score = Absent | No_score | Goals nat

record match_info =
  Home :: string
  Away :: string
  Div :: string
  MatchId :: string
  Date :: number
  FTHG :: final_score
  FTAG :: final_score

record 'p match =
  match_info :: match_info
  model_predictions :: 'p

record filters =
  search :: string
  division :: string
  dateFrom :: string
  dateTo :: string

text \<open>
  What the browser supplies: \<open>eval_query models q\<close> is the truthiness of the value of
  \<^verbatim>\<open>eval(q)\<close> with \<^verbatim>\<open>models\<close> bound to the predictions, or the exception it throws
  (the expression is taken to have no side effect); \<open>new_Date y m d\<close> is the time
  value of \<^verbatim>\<open>new Date(y, m - 1, d)\<close>, \<^verbatim>\<open>NaN\<close> for an invalid date; \<open>odds\<close> tells
  whether the query string of the page address includes \<^verbatim>\<open>odds\<close>.
\<close>

record 'p js_env =
  eval_query :: "'p \<Rightarrow> string \<Rightarrow> js_error + bool"
  new_Date :: "string option \<Rightarrow> string option \<Rightarrow> string option \<Rightarrow> number"
  odds :: bool

section \<open>The match dashboard: filter engine\<close>

text \<open>
  \<^verbatim>\<open>Utils.parseDate(matchId)\<close>. In the \<^verbatim>\<open>odds\<close> branch the second piece of the
  identifier is split again; when there is no second piece, calling \<^verbatim>\<open>split\<close> on
  \<^verbatim>\<open>undefined\<close> throws.
\<close>

definition parseDate :: "'p js_env \<Rightarrow> string \<Rightarrow> js_error + number" where
  "parseDate env matchId =
     (if odds env then
        (case elem_at (String_split matchId ''-'') 1 of
           None \<Rightarrow> Inl TypeError
         | Some piece \<Rightarrow>
             let date = String_split piece ''/''
             in Inr (new_Date env (elem_at date 2) (elem_at date 1) (elem_at date 0)))
      else
        let dateSplit = String_split matchId ''-''; n = int (length dateSplit)
        in Inr (new_Date env (elem_at dateSplit (n - 5)) (elem_at dateSplit (n - 4))
                  (elem_at dateSplit (n - 3))))"

text \<open>
  In the copy of the application under \<^verbatim>\<open>for markos only/\<close> the test reads
  \<^verbatim>\<open>includes['odds']\<close>, a property of the function, which is \<^verbatim>\<open>undefined\<close>: the
  second branch is always taken.
\<close>

definition parseDate_copy :: "'p js_env \<Rightarrow> string \<Rightarrow> js_error + number" where
  "parseDate_copy env matchId =
     (let dateSplit = String_split matchId ''-''; n = int (length dateSplit)
      in Inr (new_Date env (elem_at dateSplit (n - 5)) (elem_at dateSplit (n - 4))
                (elem_at dateSplit (n - 3))))"

text \<open>\<^verbatim>\<open>applyAdvancedFilters(models, query)\<close>: \<^verbatim>\<open>eval\<close> of \<^verbatim>\<open>undefined\<close> is \<^verbatim>\<open>undefined\<close>.\<close>

definition applyAdvancedFilters :: "'p js_env \<Rightarrow> 'p \<Rightarrow> string option \<Rightarrow> js_error + bool" where
  "applyAdvancedFilters env models query =
     (case query of None \<Rightarrow> Inr False | Some q \<Rightarrow> eval_query env models q)"

text \<open>
  The two date filters of \<^verbatim>\<open>applyFilters\<close>, the part after the division filter; the
  result is the value the callback returns.
\<close>

definition date_filters ::
  "'p js_env \<Rightarrow> (string \<Rightarrow> js_error + number) \<Rightarrow> filters \<Rightarrow> match_info \<Rightarrow> js_error + bool" where
  "date_filters env parse currentFilters matchInfo =
     (case (if dateFrom currentFilters \<noteq> [] then
              (case parse (MatchId matchInfo) of
                 Inl e \<Rightarrow> Inl e
               | Inr matchDate \<Rightarrow>
                   let date = String_split (dateFrom currentFilters) ''-'';
                       fromDate = new_Date env (elem_at date 0) (elem_at date 1) (elem_at date 2)
                   in Inr (\<not> js_lt matchDate fromDate))
            else Inr True) of
        Inl e \<Rightarrow> Inl e
      | Inr False \<Rightarrow> Inr False
      | Inr True \<Rightarrow>
          (if dateTo currentFilters \<noteq> [] then
             (case parse (MatchId matchInfo) of
                Inl e \<Rightarrow> Inl e
              | Inr matchDate \<Rightarrow>
                  let date = String_split (dateTo currentFilters) ''-'';
                      toDate = new_Date env (elem_at date 0) (elem_at date 1) (elem_at date 2)
                  in Inr (\<not> js_gt matchDate toDate))
           else Inr True))"

text \<open>
  The callback of \<^verbatim>\<open>matches.filter\<close> in \<^verbatim>\<open>FilterManager.applyFilters\<close>. With \<^verbatim>\<open>q:\<close> in
  the search string the callback returns from inside the \<^verbatim>\<open>try\<close> block, or from its
  \<^verbatim>\<open>catch\<close>.
\<close>

definition filter_callback :: "'p js_env \<Rightarrow> filters \<Rightarrow> 'p match \<Rightarrow> js_error + bool" where
  "filter_callback env currentFilters match =
     (let matchInfo = match_info match in
      if search currentFilters \<noteq> [] \<and> String_includes (search currentFilters) ''q:'' then
        (case applyAdvancedFilters env (model_predictions match)
                (elem_at (String_split (search currentFilters) ''q:'') 1) of
           Inl e \<Rightarrow> Inr True
         | Inr r \<Rightarrow> Inr r)
      else if search currentFilters \<noteq> [] \<and>
              \<not> String_includes
                  (toLowerCase (Home matchInfo @ '' '' @ Away matchInfo @ '' '' @ Div matchInfo))
                  (toLowerCase (search currentFilters)) then Inr False
      else if division currentFilters \<noteq> ''all'' \<and> Div matchInfo \<noteq> division currentFilters
      then Inr False
      else date_filters env (parseDate env) currentFilters matchInfo)"

text \<open>The same callback in the copy under \<^verbatim>\<open>for markos only/\<close>, which has no \<^verbatim>\<open>q:\<close> mode.\<close>

definition filter_callback_copy :: "'p js_env \<Rightarrow> filters \<Rightarrow> 'p match \<Rightarrow> js_error + bool" where
  "filter_callback_copy env currentFilters match =
     (let matchInfo = match_info match in
      if search currentFilters \<noteq> [] \<and>
         \<not> String_includes
             (toLowerCase (Home matchInfo @ '' '' @ Away matchInfo @ '' '' @ Div matchInfo))
             (toLowerCase (search currentFilters)) then Inr False
      else if division currentFilters \<noteq> ''all'' \<and> Div matchInfo \<noteq> division currentFilters
      then Inr False
      else date_filters env (parseDate_copy env) currentFilters matchInfo)"

text \<open>\<^verbatim>\<open>Array.prototype.filter\<close> with a callback that may throw: the first exception ends it.\<close>

fun Array_filter :: "('a \<Rightarrow> js_error + bool) \<Rightarrow> 'a list \<Rightarrow> js_error + 'a list" where
  "Array_filter p [] = Inr []"
| "Array_filter p (x # xs) =
     (case p x of
        Inl e \<Rightarrow> Inl e
      | Inr b \<Rightarrow>
          (case Array_filter p xs of
             Inl e \<Rightarrow> Inl e
           | Inr ys \<Rightarrow> Inr (if b then x # ys else ys)))"

definition applyFilters :: "'p js_env \<Rightarrow> filters \<Rightarrow> 'p match list \<Rightarrow> js_error + 'p match list" where
  "applyFilters env currentFilters matches =
     Array_filter (filter_callback env currentFilters) matches"

definition applyFilters_copy ::
  "'p js_env \<Rightarrow> filters \<Rightarrow> 'p match list \<Rightarrow> js_error + 'p match list" where
  "applyFilters_copy env currentFilters matches =
     Array_filter (filter_callback_copy env currentFilters) matches"

section \<open>The match dashboard: categorizer\<close>

text \<open>
  \<^verbatim>\<open>DataManager.categorizeMatches(matches)\<close>; \<open>currentDate\<close> is the value of
  \<^verbatim>\<open>new Date().setHours(0, 0, 0, 0)\<close>, a number. \<open>hasResult\<close> is the constant of that
  name in the three callbacks: \<^verbatim>\<open>FTHG !== null && FTAG !== null\<close>, which an absent key
  passes.
\<close>

definition hasResult :: "'p match \<Rightarrow> bool" where
  "hasResult match =
     (FTHG (match_info match) \<noteq> No_score \<and> FTAG (match_info match) \<noteq> No_score)"

record 'p categorized =
  upcoming :: "'p match list"
  unresolved :: "'p match list"
  resolved :: "'p match list"

definition categorizeMatches :: "rat \<Rightarrow> 'p match list \<Rightarrow> 'p categorized" where
  "categorizeMatches currentDate matches =
     \<lparr>upcoming =
        Array_sort (\<lambda>a b. js_sub (Date (match_info a)) (Date (match_info b)))
          (filter (\<lambda>match. js_ge (Date (match_info match)) (Some currentDate) \<and>
                           \<not> hasResult match) matches),
      unresolved =
        Array_sort (\<lambda>a b. js_sub (Date (match_info a)) (Date (match_info b)))
          (filter (\<lambda>match. js_lt (Date (match_info match)) (Some currentDate) \<and>
                           \<not> hasResult match) matches),
      resolved =
        Array_sort (\<lambda>a b. js_sub (Date (match_info b)) (Date (match_info a)))
          (filter hasResult matches)\<rparr>"

section \<open>The match dashboard: filter presets\<close>

text \<open>
  The item of \<^verbatim>\<open>localStorage\<close> under \<^verbatim>\<open>football_filter_presets\<close>: absent, a text that
  \<^verbatim>\<open>JSON.parse\<close> rejects, or the JSON text of an object from preset names to filter
  criteria, given by its members in the order of the text. \<^verbatim>\<open>JSON.stringify\<close> writes
  the own properties of an object and \<^verbatim>\<open>JSON.parse\<close> reads them back; writing to the
  storage is taken to succeed.
\<close>

datatype storage = NoItem | Malformed | Parsed "(string \<times> filters) list"

text \<open>
  A presets object: its own properties, and its prototype when that is no longer
  \<^verbatim>\<open>Object.prototype\<close> but a criteria object.
\<close>

record presets_object =
  own_props :: "(string \<times> filters) list"
  proto :: "filters option"

datatype js_value = Undefined | Null_value | Criteria filters | Builtin | Str string

text \<open>\<^verbatim>\<open>obj[name] = v\<close>.\<close>

definition set_property :: "presets_object \<Rightarrow> string \<Rightarrow> filters \<Rightarrow> presets_object" where
  "set_property obj name v =
     (if name = ''__proto__'' then obj\<lparr>proto := Some v\<rparr>
      else obj\<lparr>own_props := AList.update name v (own_props obj)\<rparr>)"

text \<open>A property read from \<^verbatim>\<open>Object.prototype\<close>.\<close>

definition inherited :: "string \<Rightarrow> js_value" where
  "inherited name = (if name \<in> set Object_prototype_names then Builtin else Undefined)"

text \<open>\<^verbatim>\<open>obj[name]\<close>: the own property, else the property of the prototype chain.\<close>

definition get_property :: "presets_object \<Rightarrow> string \<Rightarrow> js_value" where
  "get_property obj name =
     (if name = ''__proto__'' then
        (case proto obj of None \<Rightarrow> Builtin | Some f \<Rightarrow> Criteria f)
      else
        (case map_of (own_props obj) name of
           Some f \<Rightarrow> Criteria f
         | None \<Rightarrow>
             (case proto obj of
                None \<Rightarrow> inherited name
              | Some f \<Rightarrow>
                  if name = ''search'' then Str (search f)
                  else if name = ''division'' then Str (division f)
                  else if name = ''dateFrom'' then Str (dateFrom f)
                  else if name = ''dateTo'' then Str (dateTo f)
                  else inherited name)))"

text \<open>\<^verbatim>\<open>Object.assign(target, source)\<close>: each own property of the source is assigned.\<close>

definition Object_assign :: "presets_object \<Rightarrow> (string \<times> filters) list \<Rightarrow> presets_object" where
  "Object_assign target source = fold (\<lambda>(k, v) obj. set_property obj k v) source target"

definition getDefaultPresets :: "(string \<times> filters) list" where
  \<open>getDefaultPresets = [
    (''A model expects dominant performance - From Goals'',
     \<lparr>search = ''q:Object.values(models).some(model=>(model.H > 2 && model.A < 1) || (model.A > 2 && model.H < 1))'',
      division = ''all'', dateFrom = [], dateTo = []\<rparr>),
    (''A model expects dominant performance - From Win Prob'',
     \<lparr>search = ''q:Object.values(models).some(model=>model["1"] > 0.8 || model["2"] > 0.8)'',
      division = ''all'', dateFrom = [], dateTo = []\<rparr>),
    (''A model expects dominant performance - From Win Prob (any %)'',
     \<lparr>search = ''q:\<newline>                    const allSameMax = obj => {\<newline>                    const keys = ['1', 'X', '2'];\<newline>                    return Object.values(obj).every(v => keys.reduce((a,b) => v[a] > v[b] ? a : b) === keys.reduce((a,b) => Object.values(obj)[0][a] > Object.values(obj)[0][b] ? a : b));\<newline>                };\<newline>                allSameMax(models)'',
      division = ''all'', dateFrom = [], dateTo = []\<rparr>),
    (''All models aggree on BTTS (Y)'',
     \<lparr>search = ''q:Object.values(models).every(model=>model.H > 1.3 && model.A > 1.3)'',
      division = ''all'', dateFrom = [], dateTo = []\<rparr>),
    (''Is this Football or Fusball?'',
     \<lparr>search = ''q:Object.values(models).every(model=>model.H + model.A > 3.5)'',
      division = ''all'', dateFrom = [], dateTo = []\<rparr>),
    (''Goals in total agreement'',
     \<lparr>search = ''q:Object.values(models).every(model => Math.round(model.H) == Math.round(models[0].H) && Math.round(model.A) == Math.round(models[0].A))'',
      division = ''all'', dateFrom = [], dateTo = []\<rparr>),
    (''High Draw Probability'',
     \<lparr>search = ''q:Object.values(models).some(model=>model.X > 0.7)'',
      division = ''all'', dateFrom = [], dateTo = []\<rparr>),
    (''All models Win Probability in agreement'',
     \<lparr>search = ''q: Object.values(models).every(model => model["1"] > 0.6499) || Object.values(models).every(model => model["X"] > 0.6499) || Object.values(models).every(model => model["2"] > 0.6499)'',
      division = ''all'', dateFrom = [], dateTo = []\<rparr>)]\<close>

definition loadFromStorage :: "storage \<Rightarrow> js_error + (string \<times> filters) list" where
  "loadFromStorage st =
     (case st of NoItem \<Rightarrow> Inr [] | Malformed \<Rightarrow> Inl SyntaxError | Parsed values \<Rightarrow> Inr values)"

definition getAll :: "storage \<Rightarrow> presets_object" where
  "getAll st =
     (case loadFromStorage st of
        Inl e \<Rightarrow> \<lparr>own_props = [], proto = None\<rparr>
      | Inr values \<Rightarrow> Object_assign \<lparr>own_props = getDefaultPresets, proto = None\<rparr> values)"

text \<open>
  \<^verbatim>\<open>save\<close> and \<^verbatim>\<open>delete\<close> return the new content of the storage:
  \<^verbatim>\<open>JSON.stringify\<close> writes the own properties in the order of \<^verbatim>\<open>Object.entries\<close>.
\<close>

definition save :: "string \<Rightarrow> filters \<Rightarrow> storage \<Rightarrow> storage" where
  "save name currentFilters st =
     (let presets = set_property (getAll st) name currentFilters
      in Parsed (Object_entries (own_props presets)))"

definition load :: "string \<Rightarrow> storage \<Rightarrow> js_value" where
  "load name st =
     (case get_property (getAll st) name of
        Undefined \<Rightarrow> Null_value
      | Str s \<Rightarrow> if s = [] then Null_value else Str s
      | v \<Rightarrow> v)"

definition delete :: "string \<Rightarrow> storage \<Rightarrow> storage" where
  "delete name st =
     (let presets = getAll st
      in Parsed (Object_entries (AList.delete name (own_props presets))))"

definition getNames :: "storage \<Rightarrow> string list" where
  "getNames st = sort (map fst (own_props (getAll st)))"

section \<open>The filter criteria in the words of the specification\<close>

text \<open>
  A match satisfies the criteria when the search term, if there is one, occurs in the
  lower-cased text of home team, away team and division; the division filter is
  \<^verbatim>\<open>all\<close> or equals the division of the match; the date of the match is not before
  the from-date and not after the to-date, an empty bound imposing nothing.
\<close>

definition bound_date :: "'p js_env \<Rightarrow> string \<Rightarrow> number" where
  "bound_date env s =
     (let date = String_split s ''-''
      in new_Date env (elem_at date 0) (elem_at date 1) (elem_at date 2))"

definition match_date :: "'p js_env \<Rightarrow> match_info \<Rightarrow> number" where
  "match_date env info =
     (case parseDate_copy env (MatchId info) of Inr d \<Rightarrow> d | Inl e \<Rightarrow> None)"

definition satisfies_criteria :: "'p js_env \<Rightarrow> filters \<Rightarrow> 'p match \<Rightarrow> bool" where
  "satisfies_criteria env f m =
     (let info = match_info m in
      (search f = [] \<or>
       String_includes (toLowerCase (Home info @ '' '' @ Away info @ '' '' @ Div info))
         (toLowerCase (search f))) \<and>
      (division f = ''all'' \<or> Div info = division f) \<and>
      (dateFrom f = [] \<or> \<not> js_lt (match_date env info) (bound_date env (dateFrom f))) \<and>
      (dateTo f = [] \<or> \<not> js_gt (match_date env info) (bound_date env (dateTo f))))"

section \<open>Sample data\<close>

text \<open>
  A played match of the statistics page, with its result suggestion and its goals
  suggestion.
\<close>

definition played :: "nat \<Rightarrow> nat \<Rightarrow> string \<Rightarrow> string \<Rightarrow> stat_match" where
  "played h a rs gs =
     \<lparr>country = ''Austria'', home_score = Score h, away_score = Score a,
      result_suggestion = Some rs, goals_suggestion = Some gs\<rparr>"

text \<open>
  A browser for the examples. Its \<^verbatim>\<open>eval\<close> knows the two boolean literals and answers
  every other text with a \<^verbatim>\<open>SyntaxError\<close>; the examples hand it \<^verbatim>\<open>true\<close> and the text
  \<^verbatim>\<open>)\<close>, which is no expression. The page address has no \<^verbatim>\<open>odds\<close>, and no example
  consults a date.
\<close>

definition sample_env :: "unit js_env" where
  "sample_env =
     \<lparr>eval_query = (\<lambda>models q. if q = ''true'' then Inr True
                                else if q = ''false'' then Inr False
                                else Inl SyntaxError),
      new_Date = (\<lambda>y m d. None),
      odds = False\<rparr>"

definition sample_match :: "string \<Rightarrow> unit match" where
  "sample_match d =
     \<lparr>match_info = \<lparr>Home = ''Arsenal'', Away = ''Chelsea'', Div = d,
                     MatchId = d @ ''-2025-08-16-Arsenal-Chelsea'', Date = Some 1755302400000,
                     FTHG = No_score, FTAG = No_score\<rparr>,
      model_predictions = ()\<rparr>"

text \<open>
  Two records that \<^verbatim>\<open>parseMatchData\<close> lets through: one without the key \<^verbatim>\<open>Date\<close>, one
  without the keys \<^verbatim>\<open>FTHG\<close> and \<^verbatim>\<open>FTAG\<close>.
\<close>

definition undated_match :: "unit match" where
  "undated_match =
     (sample_match ''E0'')\<lparr>match_info := (match_info (sample_match ''E0''))\<lparr>Date := None\<rparr>\<rparr>"

definition scoreless_match :: "unit match" where
  "scoreless_match =
     (sample_match ''E0'')\<lparr>match_info :=
        (match_info (sample_match ''E0''))\<lparr>FTHG := Absent, FTAG := Absent\<rparr>\<rparr>"

section \<open>Filter engine: the conjunction of the criteria\<close>

lemma Array_filter_Inr:
  "(\<And>x. x \<in> set xs \<Longrightarrow> p x = Inr (q x)) \<Longrightarrow> Array_filter p xs = Inr (filter q xs)"
  by (induction xs) auto

lemma Array_filter_subseq:
  "Array_filter p xs = Inr ys \<Longrightarrow> subseq ys xs"
  by (induction xs arbitrary: ys) (auto split: sum.splits if_splits)

text \<open>
  What \<^verbatim>\<open>applyFilters\<close> returns is a subsequence of its input. The copy of the
  application without the \<^verbatim>\<open>q:\<close> mode keeps exactly the matches that satisfy all
  criteria, and so does \<^verbatim>\<open>applyFilters\<close> on a page without \<^verbatim>\<open>odds\<close> as long as the
  search string does not contain \<^verbatim>\<open>q:\<close>.
\<close>

lemma filter_callback_copy_criteria:
  "filter_callback_copy env f m = Inr (satisfies_criteria env f m)"
  by (auto simp: filter_callback_copy_def satisfies_criteria_def date_filters_def
        parseDate_copy_def match_date_def bound_date_def Let_def split: bool.splits)

lemma applyFilters_copy_criteria:
  "applyFilters_copy env f matches = Inr (filter (satisfies_criteria env f) matches)"
  unfolding applyFilters_copy_def
  by (rule Array_filter_Inr) (rule filter_callback_copy_criteria)

lemma applyFilters_text_mode:
  assumes "\<not> String_includes (search f) ''q:''" and "\<not> odds env"
  shows "applyFilters env f matches = applyFilters_copy env f matches"
proof -
  have pd: "parseDate env = parseDate_copy env"
    using assms(2) by (auto simp: parseDate_def parseDate_copy_def)
  have "filter_callback env f m = filter_callback_copy env f m" for m
    by (simp add: filter_callback_def filter_callback_copy_def pd assms(1) Let_def)
  then have "filter_callback env f = filter_callback_copy env f"
    by (rule ext)
  then show ?thesis
    by (simp add: applyFilters_def applyFilters_copy_def)
qed

lemma applyFilters_subseq:
  "applyFilters env f matches = Inr kept \<Longrightarrow> subseq kept matches"
  unfolding applyFilters_def by (rule Array_filter_subseq)

text \<open>
  C1. With \<^verbatim>\<open>q:true\<close> as search string and the division filter \<^verbatim>\<open>E0\<close>, a match of the
  division \<^verbatim>\<open>D1\<close> is kept: in the \<^verbatim>\<open>q:\<close> mode the callback returns the value of the
  expression and never reaches the division filter and the date filters. With a
  plain search term the same match is dropped by the division filter.
\<close>

theorem query_mode_skips_division_filter:
  "applyFilters sample_env
     \<lparr>search = ''q:true'', division = ''E0'', dateFrom = [], dateTo = []\<rparr>
     [sample_match ''D1''] = Inr [sample_match ''D1''] \<and>
   Div (match_info (sample_match ''D1'')) \<noteq> ''E0'' \<and>
   applyFilters sample_env
     \<lparr>search = ''arsenal'', division = ''E0'', dateFrom = [], dateTo = []\<rparr>
     [sample_match ''D1''] = Inr []"
  by code_simp

section \<open>Filter engine: the predicate-expression mode\<close>

lemma prefix_marker_includes:
  "prefix ''q:'' s \<Longrightarrow> s \<noteq> [] \<and> String_includes s ''q:''"
  by (auto simp: String_includes_def)

lemma query_mode_callback:
  assumes "search f \<noteq> []" and "String_includes (search f) ''q:''"
  shows "filter_callback env f m =
           Inr (applyAdvancedFilters env (model_predictions m)
                  (elem_at (String_split (search f) ''q:'') 1) \<noteq> Inr False)"
  using assms by (auto simp: filter_callback_def split: sum.splits)

text \<open>
  With the marker in front and no second marker, the expression handed to \<^verbatim>\<open>eval\<close>
  is the rest of the search string.
\<close>

lemma split_from_no_sep:
  "\<not> sublist sep s \<Longrightarrow> split_from sep cur s = [rev cur @ s]"
proof (induction s arbitrary: cur)
  case Nil then show ?case by simp
next
  case (Cons c cs)
  have a: "\<not> prefix sep (c # cs)"
    using Cons.prems by (simp add: sublist_Cons_right)
  have b: "\<not> sublist sep cs"
    using Cons.prems by (simp add: sublist_Cons_right)
  have "split_from sep cur (c # cs) = split_from sep (c # cur) cs"
    using a by simp
  also have "\<dots> = [rev (c # cur) @ cs]"
    by (rule Cons.IH [OF b])
  finally show ?case by simp
qed

lemma query_is_remainder:
  assumes "\<not> String_includes r ''q:''"
  shows "elem_at (String_split (''q:'' @ r) ''q:'') 1 = Some r"
proof -
  have "split_from ''q:'' [] r = [rev [] @ r]"
    using assms unfolding String_includes_def by (rule split_from_no_sep)
  then have "String_split (''q:'' @ r) ''q:'' = [[], r]"
    by (simp add: String_split_def)
  then show ?thesis by (simp add: elem_at_def)
qed

text \<open>
  C2. When the search string starts with the marker \<^verbatim>\<open>q:\<close> and the evaluation of the
  expression on the predictions of a match raises an error, that match passes the
  filter; \<^verbatim>\<open>applyFilters\<close> returns a list and raises nothing, and every match of the
  input is kept or dropped by its own evaluation.
\<close>

theorem eval_error_keeps_match:
  assumes "prefix ''q:'' (search currentFilters)"
    and "match \<in> set matches"
    and "applyAdvancedFilters env (model_predictions match)
           (elem_at (String_split (search currentFilters) ''q:'') 1) = Inl e"
  shows "applyFilters env currentFilters matches =
           Inr (filter (\<lambda>m. applyAdvancedFilters env (model_predictions m)
                              (elem_at (String_split (search currentFilters) ''q:'') 1)
                            \<noteq> Inr False) matches) \<and>
         filter_callback env currentFilters match = Inr True \<and>
         (\<exists>kept. applyFilters env currentFilters matches = Inr kept \<and> match \<in> set kept)"
proof -
  from assms(1) have q: "search currentFilters \<noteq> []"
    "String_includes (search currentFilters) ''q:''"
    using prefix_marker_includes by blast+
  have cb: "\<And>m. filter_callback env currentFilters m =
           Inr (applyAdvancedFilters env (model_predictions m)
                  (elem_at (String_split (search currentFilters) ''q:'') 1) \<noteq> Inr False)"
    by (rule query_mode_callback [OF q])
  have all: "applyFilters env currentFilters matches =
           Inr (filter (\<lambda>m. applyAdvancedFilters env (model_predictions m)
                              (elem_at (String_split (search currentFilters) ''q:'') 1)
                            \<noteq> Inr False) matches)"
    unfolding applyFilters_def by (rule Array_filter_Inr) (simp add: cb)
  have one: "filter_callback env currentFilters match = Inr True"
    by (simp add: cb assms(3))
  from all assms(2,3) one show ?thesis by simp
qed

theorem eval_error_keeps_match_witness:
  "prefix ''q:'' (search \<lparr>search = ''q:)'', division = ''all'', dateFrom = [], dateTo = []\<rparr>) \<and>
   sample_match ''E0'' \<in> set [sample_match ''E0''] \<and>
   applyAdvancedFilters sample_env (model_predictions (sample_match ''E0''))
     (elem_at (String_split
        (search \<lparr>search = ''q:)'', division = ''all'', dateFrom = [], dateTo = []\<rparr>) ''q:'') 1)
     = Inl SyntaxError \<and>
   applyFilters sample_env \<lparr>search = ''q:)'', division = ''all'', dateFrom = [], dateTo = []\<rparr>
     [sample_match ''E0''] = Inr [sample_match ''E0'']"
proof -
  have p: "prefix ''q:'' (search \<lparr>search = ''q:)'', division = ''all'', dateFrom = [], dateTo = []\<rparr>)"
    by simp
  have m: "sample_match ''E0'' \<in> set [sample_match ''E0'']"
    by simp
  have e: "applyAdvancedFilters sample_env (model_predictions (sample_match ''E0''))
     (elem_at (String_split
        (search \<lparr>search = ''q:)'', division = ''all'', dateFrom = [], dateTo = []\<rparr>) ''q:'') 1)
     = Inl SyntaxError"
    by code_simp
  from eval_error_keeps_match [OF p m e] p m e show ?thesis
    by simp
qed

section \<open>Categorizer\<close>

lemma mset_insort_by: "mset (insort_by compare x xs) = add_mset x (mset xs)"
  by (induction xs) auto

lemma mset_Array_sort: "mset (Array_sort compare xs) = mset xs"
  by (induction xs) (simp_all add: Array_sort_def mset_insort_by)

lemma set_Array_sort: "set (Array_sort compare xs) = set xs"
  using mset_Array_sort [of compare xs] by (metis set_mset_mset)

text \<open>
  C3. A match without result whose \<^verbatim>\<open>Date\<close> key is absent is neither \<^verbatim>\<open>>=\<close> nor \<^verbatim>\<open><\<close> the
  current date and lies in none of the three buckets; a match whose score keys are
  absent passes \<^verbatim>\<open>!== null\<close> and lies in the bucket of the resolved matches, although
  no final score is present.
\<close>

theorem categorizeMatches_leaves_out:
  "hasResult undated_match = False \<and>
   categorizeMatches 1755216000000 [undated_match] =
     \<lparr>upcoming = [], unresolved = [], resolved = []\<rparr> \<and>
   FTHG (match_info scoreless_match) = Absent \<and>
   FTAG (match_info scoreless_match) = Absent \<and>
   categorizeMatches 1755216000000 [scoreless_match] =
     \<lparr>upcoming = [], unresolved = [], resolved = [scoreless_match]\<rparr>"
  by code_simp

text \<open>
  What holds of every collection: the three memberships are the three tests of the
  code, and no match is in two buckets. When every match without result has a date
  that is a number, the three buckets together hold the matches of the collection,
  each as often as the collection does.
\<close>

lemma categorizeMatches_membership:
  "(m \<in> set (upcoming (categorizeMatches currentDate matches)) \<longleftrightarrow>
      m \<in> set matches \<and> js_ge (Date (match_info m)) (Some currentDate) \<and> \<not> hasResult m) \<and>
   (m \<in> set (unresolved (categorizeMatches currentDate matches)) \<longleftrightarrow>
      m \<in> set matches \<and> js_lt (Date (match_info m)) (Some currentDate) \<and> \<not> hasResult m) \<and>
   (m \<in> set (resolved (categorizeMatches currentDate matches)) \<longleftrightarrow>
      m \<in> set matches \<and> hasResult m)"
  by (simp add: categorizeMatches_def set_Array_sort)

lemma categorizeMatches_at_most_one:
  "\<not> (m \<in> set (upcoming (categorizeMatches currentDate matches)) \<and>
      m \<in> set (unresolved (categorizeMatches currentDate matches))) \<and>
   \<not> (m \<in> set (upcoming (categorizeMatches currentDate matches)) \<and>
      m \<in> set (resolved (categorizeMatches currentDate matches))) \<and>
   \<not> (m \<in> set (unresolved (categorizeMatches currentDate matches)) \<and>
      m \<in> set (resolved (categorizeMatches currentDate matches)))"
  by (auto simp: categorizeMatches_membership js_ge_def js_lt_def split: option.splits)

lemma categorizeMatches_partition_numeric_dates:
  assumes "\<forall>m \<in> set matches. hasResult m \<or> Date (match_info m) \<noteq> None"
  shows "mset (upcoming (categorizeMatches currentDate matches)) +
         mset (unresolved (categorizeMatches currentDate matches)) +
         mset (resolved (categorizeMatches currentDate matches)) = mset matches"
proof -
  have "mset (filter (\<lambda>match. js_ge (Date (match_info match)) (Some currentDate) \<and>
                              \<not> hasResult match) matches) +
        mset (filter (\<lambda>match. js_lt (Date (match_info match)) (Some currentDate) \<and>
                              \<not> hasResult match) matches) +
        mset (filter hasResult matches) = mset matches"
    using assms by (induction matches) (auto simp: js_ge_def js_lt_def)
  then show ?thesis
    by (simp add: categorizeMatches_def mset_Array_sort)
qed

lemma hasResult_scores:
  "FTHG (match_info m) \<noteq> Absent \<Longrightarrow> FTAG (match_info m) \<noteq> Absent \<Longrightarrow>
   hasResult m \<longleftrightarrow> (\<exists>h a. FTHG (match_info m) = Goals h \<and> FTAG (match_info m) = Goals a)"
  by (cases "FTHG (match_info m)"; cases "FTAG (match_info m)") (auto simp: hasResult_def)

section \<open>Accuracy evaluator\<close>


lemma isMatchCompleted_scores:
  "isMatchCompleted m \<longleftrightarrow>
     ((\<exists>h. home_score m = Score h) \<or> home_score m = Unreadable) \<and>
     ((\<exists>a. away_score m = Score a) \<or> away_score m = Unreadable)"
  by (cases "home_score m"; cases "away_score m") (auto simp: isMatchCompleted_def)



text \<open>
  C10, as amended. On a completed match whose goals suggestion is not empty and
  contains none of the five labels as a substring, the goals check is false, not
  undefined.
\<close>

theorem checkIsGoalsCorrect_unrecognized:
  assumes "isMatchCompleted m" and "goals_suggestion m = Some s" and "s \<noteq> []"
    and "\<not> String_includes s ''Over 2.5''" and "\<not> String_includes s ''Over 1.5''"
    and "\<not> String_includes s ''Under 3.5''" and "\<not> String_includes s ''BTTS Yes''"
    and "\<not> String_includes s ''BTTS No''"
  shows "checkIsGoalsCorrect m = Some False"
  using assms by (simp add: checkIsGoalsCorrect_def)

theorem checkIsGoalsCorrect_unrecognized_witness:
  "isMatchCompleted (played 2 1 ''1'' ''Correct score 2-1'') \<and>
   checkIsGoalsCorrect (played 2 1 ''1'' ''Correct score 2-1'') = Some False"
proof -
  have c: "isMatchCompleted (played 2 1 ''1'' ''Correct score 2-1'')"
    by (simp add: played_def isMatchCompleted_def)
  have g: "goals_suggestion (played 2 1 ''1'' ''Correct score 2-1'') = Some ''Correct score 2-1''"
    by (simp add: played_def)
  have n: "''Correct score 2-1'' \<noteq> []"
    "\<not> String_includes ''Correct score 2-1'' ''Over 2.5''"
    "\<not> String_includes ''Correct score 2-1'' ''Over 1.5''"
    "\<not> String_includes ''Correct score 2-1'' ''Under 3.5''"
    "\<not> String_includes ''Correct score 2-1'' ''BTTS Yes''"
    "\<not> String_includes ''Correct score 2-1'' ''BTTS No''"
    by code_simp+
  from checkIsGoalsCorrect_unrecognized [OF c g n] c show ?thesis by simp
qed

text \<open>
  A suggestion that joins two labels is none of the five labels, and the check of a
  2-1 result is true, not false.
\<close>

theorem checkIsGoalsCorrect_composite_counterexample:
  "isMatchCompleted (played 2 1 ''1'' ''Over 2.5 & BTTS Yes'') \<and>
   goals_suggestion (played 2 1 ''1'' ''Over 2.5 & BTTS Yes'') = Some ''Over 2.5 & BTTS Yes'' \<and>
   ''Over 2.5 & BTTS Yes'' \<noteq> [] \<and>
   ''Over 2.5 & BTTS Yes'' \<notin> set [''Over 2.5'', ''Over 1.5'', ''Under 3.5'', ''BTTS Yes'', ''BTTS No''] \<and>
   checkIsGoalsCorrect (played 2 1 ''1'' ''Over 2.5 & BTTS Yes'') = Some True"
  by code_simp

text \<open>
  C6. The combined check is true exactly when the outcome check and the goals check
  are both defined and both true; it is false exactly when both are defined and at
  least one of them is false; it is undefined exactly when one of the two is undefined.
\<close>

theorem checkIsBothCorrect_cases:
  "(checkIsBothCorrect m = Some True \<longleftrightarrow>
      checkIsForecastCorrect m = Some True \<and> checkIsGoalsCorrect m = Some True) \<and>
   (checkIsBothCorrect m = Some False \<longleftrightarrow>
      (\<exists>f g. checkIsForecastCorrect m = Some f \<and> checkIsGoalsCorrect m = Some g \<and>
             (\<not> f \<or> \<not> g))) \<and>
   (checkIsBothCorrect m = None \<longleftrightarrow>
      checkIsForecastCorrect m = None \<or> checkIsGoalsCorrect m = None)"
  by (cases "checkIsForecastCorrect m"; cases "checkIsGoalsCorrect m")
     (auto simp: checkIsBothCorrect_def)

theorem checkIsBothCorrect_cases_witness:
  "checkIsForecastCorrect (played 2 1 ''1'' ''Over 2.5'') = Some True \<and>
   checkIsGoalsCorrect (played 2 1 ''1'' ''Over 2.5'') = Some True \<and>
   checkIsBothCorrect (played 2 1 ''1'' ''Over 2.5'') = Some True"
proof -
  have f: "checkIsForecastCorrect (played 2 1 ''1'' ''Over 2.5'') = Some True"
    by code_simp
  have g: "checkIsGoalsCorrect (played 2 1 ''1'' ''Over 2.5'') = Some True"
    by code_simp
  from f g checkIsBothCorrect_cases [of "played 2 1 ''1'' ''Over 2.5''"]
  show ?thesis by simp
qed

section \<open>Aggregator\<close>

text \<open>
  C5. Twenty-three correct evaluations out of forty are 57.5 per cent, which rounds
  to 58; \<^verbatim>\<open>calcAccuracy\<close> divides first and multiplies by 100 afterwards, the double
  it rounds is 57.49999999999999, and it reports 57.
\<close>

theorem calcAccuracy_rounds_down_at_half:
  "calcAccuracy (replicate 23 (played 1 0 ''1'' []) @ replicate 17 (played 0 1 ''1'' []))
     checkIsForecastCorrect = 57 \<and>
   Math_round (100 * 23 / 40) = 58"
  by code_simp

text \<open>The guard against an empty group and the example of the specification.\<close>

lemma calcAccuracy_three_of_four:
  "calcAccuracy [played 1 0 ''1'' [], played 2 0 ''1'' [], played 3 1 ''1'' [], played 0 1 ''1'' []]
     checkIsForecastCorrect = 75"
  by code_simp

lemma calcAccuracy_no_evaluation:
  "\<forall>m \<in> set matches. checkFn m = None \<Longrightarrow> calcAccuracy matches checkFn = 0"
  by (simp add: calcAccuracy_def filter_empty_conv)

lemma calculateAccuracy_zero: "calculateAccuracy correct 0 = 0"
  by (simp add: calculateAccuracy_def)

lemma calculateAccuracy_half: "calculateAccuracy 23 40 = 57" "calculateAccuracy 3 4 = 75"
  by code_simp+

subsection \<open>How far the double arithmetic is from the exact percentage\<close>

text \<open>
  The model of the doubles on known values: one half is a double, one tenth is not,
  and \<^verbatim>\<open>(23 / 40) * 100\<close> is the double just below 57.5.
\<close>

lemma double_of_samples:
  "double_of (1 / 2) = 1 / 2"
  "double_of (1 / 10) = 3602879701896397 / 36028797018963968"
  "fdiv 23 40 = 2589569785738035 / 4503599627370496"
  "fmul (fdiv 23 40) 100 = 8092405580431359 / 140737488355328"
  by code_simp+

text \<open>
  Rounding to a double changes a number of normal size by at most the fraction
  \<open>2^-53\<close> of it.
\<close>

lemma pow2_powi: "pow2 e = 2 powi e"
  by (simp add: pow2_def power_int_def inverse_eq_divide power_one_over)

lemma pow2_pos: "0 < pow2 e"
  by (simp add: pow2_powi)

lemma pow2_add: "pow2 (a + b) = pow2 a * pow2 b"
  by (simp add: pow2_powi power_int_add)

lemma pow2_mono: "a \<le> b \<Longrightarrow> pow2 a \<le> pow2 b"
  by (simp add: pow2_powi power_int_increasing)

lemma pow2_nat: "0 \<le> e \<Longrightarrow> pow2 e = 2 ^ nat e"
  by (simp add: pow2_def)

lemma binary_exponent_le:
  assumes "0 < x"
  shows "pow2 (binary_exponent x) \<le> x"
proof -
  obtain p q where pq: "quotient_of x = (p, q)" by force
  have q: "0 < q" using quotient_of_denom_pos [OF pq] .
  have x: "x = of_int p / of_int q" using quotient_of_div [OF pq] .
  have p: "0 < p" using assms q x by (simp add: zero_less_divide_iff)
  define e0 where "e0 = bitlen p - bitlen q"
  have be: "binary_exponent x = (if pow2 e0 \<le> x then e0 else e0 - 1)"
    by (simp add: binary_exponent_def pq e0_def Let_def)
  have bp: "2 ^ nat (bitlen p - 1) \<le> p" and bq: "q < 2 ^ nat (bitlen q)"
    using bitlen_bounds [OF p] bitlen_bounds [OF q] by auto
  have bp1: "1 \<le> bitlen p" using p bitlen_eq_zero_iff [of p] bitlen_nonneg [of p] by linarith
  have low: "pow2 (e0 - 1) \<le> x"
  proof -
    have "e0 - 1 = (bitlen p - 1) + (- bitlen q)"
      by (simp add: e0_def)
    then have "pow2 (e0 - 1) = pow2 (bitlen p - 1) * pow2 (- bitlen q)"
      by (simp only: pow2_add)
    also have "\<dots> = 2 ^ nat (bitlen p - 1) / 2 ^ nat (bitlen q)"
      using bp1 bitlen_nonneg [of q] by (simp add: pow2_def)
    also have "\<dots> \<le> of_int p / 2 ^ nat (bitlen q)"
    proof -
      have "(2::rat) ^ nat (bitlen p - 1) \<le> of_int p"
        using bp by (metis of_int_le_iff of_int_numeral of_int_power)
      then show ?thesis by (simp add: divide_right_mono)
    qed
    also have "\<dots> \<le> of_int p / of_int q"
    proof -
      have "of_int q \<le> (2::rat) ^ nat (bitlen q)"
        using bq by (metis less_imp_le of_int_le_iff of_int_numeral of_int_power)
      then show ?thesis using p q by (simp add: frac_le)
    qed
    finally show ?thesis by (simp add: x)
  qed
  show ?thesis using low by (simp add: be)
qed

lemma round_half_even_error: "\<bar>of_int (round_half_even y) - y\<bar> \<le> 1 / 2"
proof -
  have "of_int \<lfloor>y\<rfloor> \<le> y" "y < of_int \<lfloor>y\<rfloor> + 1" by linarith+
  then show ?thesis
    by (auto simp: round_half_even_def Let_def)
qed

lemma double_of_error:
  assumes "pow2 (- 1022) \<le> \<bar>x\<bar>"
  shows "\<bar>double_of x - x\<bar> \<le> \<bar>x\<bar> * pow2 (- 53)"
proof -
  have x0: "x \<noteq> 0" using assms pow2_pos [of "- 1022"] by auto
  define e where "e = max (binary_exponent \<bar>x\<bar>) (- 1022)"
  define u where "u = pow2 (e - 52)"
  have u: "0 < u" by (simp add: u_def pow2_pos)
  have e: "pow2 e \<le> \<bar>x\<bar>"
    using assms binary_exponent_le [of "\<bar>x\<bar>"] x0 by (auto simp: e_def max_def)
  have d: "double_of x = of_int (round_half_even (x / u)) * u"
    using x0 by (simp add: double_of_def e_def u_def Let_def)
  have "double_of x - x = (of_int (round_half_even (x / u)) - x / u) * u"
    using u by (simp add: d field_simps)
  then have "\<bar>double_of x - x\<bar> = \<bar>of_int (round_half_even (x / u)) - x / u\<bar> * u"
    using u by (simp add: abs_mult)
  also have "\<dots> \<le> 1 / 2 * u"
    using round_half_even_error [of "x / u"] u by (simp add: mult_right_mono)
  also have "\<dots> = pow2 e * pow2 (- 53)"
  proof -
    have "pow2 (e - 52) = pow2 e * pow2 (- 52)" "pow2 (- 53) = pow2 (- 52) * pow2 (- 1)"
      by (simp_all add: pow2_add [symmetric])
    then show ?thesis by (simp add: u_def pow2_def)
  qed
  also have "\<dots> \<le> \<bar>x\<bar> * pow2 (- 53)"
    using e pow2_pos [of "- 53"] by (simp add: mult_right_mono)
  finally show ?thesis .
qed

text \<open>
  For fewer than \<open>2^43\<close> evaluations the double that is rounded differs from the exact
  percentage by less than \<open>1 / (2 * count)\<close>, the least distance of a percentage that
  is not half-way between two integers from the nearest half-way point.
\<close>

lemma percentage_error:
  assumes n: "0 < n" "n < 2 ^ 43" and c: "0 < c" "c \<le> n"
  shows "\<bar>fmul (fdiv (of_nat c) (of_nat n)) 100 - 100 * of_nat c / of_nat n\<bar>
           < 1 / (2 * of_nat n)"
proof -
  define x :: rat where "x = of_nat c / of_nat n"
  define y where "y = double_of x"
  define z where "z = double_of (y * 100)"
  define eps where "eps = pow2 (- 53)"
  have eps: "0 < eps" "eps \<le> 1" "600 * eps * 2 ^ 43 < 1"
    by (simp_all add: eps_def pow2_def)
  have tiny: "pow2 (- 1022) \<le> 1 / 2 ^ 43"
  proof -
    have "pow2 (- 1022) \<le> pow2 (- 43)" by (rule pow2_mono) simp
    then show ?thesis by (simp add: pow2_def)
  qed
  have nr: "(0::rat) < of_nat n" "(of_nat n :: rat) < 2 ^ 43"
    using n by (simp_all add: of_nat_less_numeral_power_cancel_iff)
  have cr: "(0::rat) < of_nat c" "(of_nat c :: rat) < 2 ^ 43"
    using n c by (simp_all add: of_nat_less_numeral_power_cancel_iff)
  have x_pos: "0 < x" using nr cr by (simp add: x_def)
  have x_low: "1 / 2 ^ 43 \<le> x"
  proof -
    have "(1::rat) \<le> of_nat c" using c by simp
    then have "(1::rat) / 2 ^ 43 \<le> of_nat c / of_nat n"
      using nr by (intro frac_le) simp_all
    then show ?thesis by (simp add: x_def)
  qed
  have ex: "\<bar>y - x\<bar> \<le> x * eps"
    using double_of_error [of x] tiny x_low x_pos by (simp add: y_def eps_def)
  then have y_bounds: "x * (1 - eps) \<le> y" "y \<le> x * (1 + eps)"
    by (simp_all add: abs_le_iff algebra_simps)
  have half: "eps \<le> 1 / 2" by (simp add: eps_def pow2_def)
  have y_low: "x / 2 \<le> y"
  proof -
    have "x * (1 / 2) \<le> x * (1 - eps)"
      using x_pos half by (intro mult_left_mono) simp_all
    with y_bounds(1) show ?thesis by simp
  qed
  have y_pos: "0 < y" using y_low x_pos by linarith
  have "pow2 (- 1022) \<le> y * 100"
    using tiny x_low y_low x_pos by linarith
  then have ez: "\<bar>z - y * 100\<bar> \<le> y * 100 * eps"
    using double_of_error [of "y * 100"] y_pos by (simp add: z_def eps_def)
  have y_up: "y \<le> 2 * x"
  proof -
    have "x * (1 + eps) \<le> x * 2"
      using x_pos eps by (intro mult_left_mono) simp_all
    with y_bounds(2) show ?thesis by simp
  qed
  have "z - 100 * x = (z - y * 100) + 100 * (y - x)"
    by (simp add: algebra_simps)
  then have "\<bar>z - 100 * x\<bar> \<le> \<bar>z - y * 100\<bar> + \<bar>100 * (y - x)\<bar>"
    by (simp only: abs_triangle_ineq)
  moreover have "\<bar>100 * (y - x)\<bar> = 100 * \<bar>y - x\<bar>"
    by (subst abs_mult) simp
  ultimately have "\<bar>z - 100 * x\<bar> \<le> \<bar>z - y * 100\<bar> + 100 * \<bar>y - x\<bar>"
    by (simp only:)
  also have "\<dots> \<le> y * 100 * eps + 100 * (x * eps)"
    using ez ex by (intro add_mono mult_left_mono) simp_all
  also have "\<dots> \<le> (2 * x) * 100 * eps + 100 * (x * eps)"
    using y_up eps(1) by (simp add: mult_right_mono)
  also have "\<dots> = 300 * eps * x" by simp
  finally have total: "\<bar>z - 100 * x\<bar> \<le> 300 * eps * x" .
  have "600 * eps * of_nat c < 1"
  proof -
    have "600 * eps * of_nat c \<le> 600 * eps * 2 ^ 43"
      using cr(2) eps(1) by (intro mult_left_mono) simp_all
    with eps(3) show ?thesis by linarith
  qed
  then have "300 * eps * x < 1 / (2 * of_nat n)"
    using nr(1) by (simp add: x_def field_simps)
  with total have "\<bar>z - 100 * x\<bar> < 1 / (2 * of_nat n)" by linarith
  then show ?thesis
    by (simp add: fmul_def fdiv_def z_def y_def x_def)
qed

lemma Math_round_near:
  assumes n: "0 < (n::nat)"
    and near: "\<bar>z - 100 * of_nat c / of_nat n\<bar> < 1 / (2 * of_nat n)"
  shows "(200 * c + n) mod (2 * n) \<noteq> 0 \<Longrightarrow> Math_round z = Math_round (100 * of_nat c / of_nat n)"
    and "Math_round (100 * of_nat c / of_nat n) - 1 \<le> Math_round z"
    and "Math_round z \<le> Math_round (100 * of_nat c / of_nat n)"
proof -
  define k where "k = (200 * c + n) div (2 * n)"
  define r where "r = (200 * c + n) mod (2 * n)"
  have r: "r < 2 * n" using n by (simp add: r_def)
  have "200 * c + n = 2 * n * k + r"
    by (simp add: k_def r_def)
  then have "(of_nat (200 * c + n) :: rat) = of_nat (2 * n * k + r)" by simp
  then have t: "100 * of_nat c / of_nat n + 1 / 2 = (of_nat k :: rat) + of_nat r / (2 * of_nat n)"
    using n by (simp add: field_simps)
  have "(of_nat r :: rat) < of_nat (2 * n)"
    using r by (simp only: of_nat_less_iff)
  then have rn: "(of_nat r :: rat) / (2 * of_nat n) < 1"
    using n by simp
  have rn0: "0 \<le> (of_nat r :: rat) / (2 * of_nat n)" by simp
  have mt: "Math_round (100 * of_nat c / of_nat n) = int k"
    unfolding Math_round_def t using rn rn0 by (simp add: floor_unique)
  from near have z: "of_nat k + of_nat r / (2 * of_nat n) - 1 / (2 * of_nat n) < z + 1 / 2"
    "z + 1 / 2 < of_nat k + of_nat r / (2 * of_nat n) + 1 / (2 * of_nat n)"
    using t by (simp_all add: abs_less_iff)
  have frac: "(of_nat r :: rat) / (2 * of_nat n) - 1 / (2 * of_nat n) = (of_nat r - 1) / (2 * of_nat n)"
    "(of_nat r :: rat) / (2 * of_nat n) + 1 / (2 * of_nat n) = (of_nat r + 1) / (2 * of_nat n)"
    by (simp_all add: diff_divide_distrib add_divide_distrib)
  have up: "(of_nat r + 1 :: rat) / (2 * of_nat n) \<le> 1"
  proof -
    have "r + 1 \<le> 2 * n" using r by simp
    then have "(of_nat (r + 1) :: rat) \<le> of_nat (2 * n)" by (simp only: of_nat_le_iff)
    then show ?thesis using n by simp
  qed
  have lowg: "- 1 \<le> (of_nat r - 1 :: rat) / (2 * of_nat n)"
  proof -
    have "- 1 \<le> - 1 / (2 * of_nat n :: rat)" using n by (simp add: field_simps)
    also have "\<dots> \<le> (of_nat r - 1) / (2 * of_nat n)"
      by (intro divide_right_mono) simp_all
    finally show ?thesis .
  qed
  show "Math_round z \<le> Math_round (100 * of_nat c / of_nat n)"
  proof -
    have "z + 1 / 2 < of_int (int k + 1)" using z(2) frac(2) up by simp
    then have "\<lfloor>z + 1 / 2\<rfloor> < int k + 1" by (simp only: floor_less_iff)
    then show ?thesis unfolding mt by (simp add: Math_round_def)
  qed
  show "Math_round (100 * of_nat c / of_nat n) - 1 \<le> Math_round z"
  proof -
    have "of_int (int k - 1) \<le> z + 1 / 2" using z(1) frac(1) lowg by simp
    then have "int k - 1 \<le> \<lfloor>z + 1 / 2\<rfloor>" by (simp only: le_floor_iff)
    then show ?thesis unfolding mt by (simp add: Math_round_def)
  qed
  show "Math_round z = Math_round (100 * of_nat c / of_nat n)"
    if "(200 * c + n) mod (2 * n) \<noteq> 0"
  proof -
    from that have "1 \<le> r" by (simp add: r_def)
    then have "(0::rat) \<le> (of_nat r - 1) / (2 * of_nat n)" by simp
    then have "of_int (int k) \<le> z + 1 / 2" using z(1) frac(1) by simp
    moreover have "z + 1 / 2 < of_int (int k) + 1" using z(2) frac(2) up by simp
    ultimately have "\<lfloor>z + 1 / 2\<rfloor> = int k" by (rule floor_unique)
    then show ?thesis unfolding mt by (simp add: Math_round_def)
  qed
qed

text \<open>
  So the reported percentage is \<open>round(100 * correct / count)\<close> unless
  \<open>100 * correct / count\<close> lies half-way between two integers, and it is that value
  or one less in every case.
\<close>

lemma calcAccuracy_counts:
  "calcAccuracy matches checkFn =
     calculateAccuracy (length (filter (\<lambda>m. checkFn m = Some True) matches))
       (length (filter (\<lambda>m. checkFn m \<noteq> None) matches))"
proof -
  have a: "length (filter (\<lambda>v. v = Some True) (filter (\<lambda>v. v \<noteq> None) (map checkFn matches))) =
        length (filter (\<lambda>m. checkFn m = Some True) matches)"
    by (induction matches) auto
  have b: "length (filter (\<lambda>v. v \<noteq> None) (map checkFn matches)) =
        length (filter (\<lambda>m. checkFn m \<noteq> None) matches)"
    by (induction matches) auto
  show ?thesis
    unfolding calcAccuracy_def calculateAccuracy_def Let_def a b by simp
qed

lemma calculateAccuracy_near:
  assumes "0 < n" and "n < 2 ^ 43" and "c \<le> n"
  shows "\<bar>fmul (fdiv (of_nat c) (of_nat n)) 100 - 100 * of_nat c / of_nat n\<bar>
           < 1 / (2 * of_nat n)"
proof (cases "c = 0")
  case True
  then show ?thesis using assms(1) by (simp add: fmul_def fdiv_def double_of_def)
next
  case False
  then show ?thesis using percentage_error [of n c] assms by simp
qed

lemma calculateAccuracy_exact_unless_tie:
  assumes "0 < n" and "n < 2 ^ 43" and "c \<le> n"
  shows "(200 * c + n) mod (2 * n) \<noteq> 0 \<Longrightarrow>
           calculateAccuracy c n = Math_round (100 * of_nat c / of_nat n)"
    and "Math_round (100 * of_nat c / of_nat n) - 1 \<le> calculateAccuracy c n"
    and "calculateAccuracy c n \<le> Math_round (100 * of_nat c / of_nat n)"
  using Math_round_near [OF assms(1) calculateAccuracy_near [OF assms]] assms(1)
  by (simp_all add: calculateAccuracy_def)

lemma calcAccuracy_exact_unless_tie:
  assumes "n = length (filter (\<lambda>m. checkFn m \<noteq> None) matches)"
    and "c = length (filter (\<lambda>m. checkFn m = Some True) matches)"
    and "0 < n" and "n < 2 ^ 43"
  shows "(200 * c + n) mod (2 * n) \<noteq> 0 \<Longrightarrow>
           calcAccuracy matches checkFn = Math_round (100 * of_nat c / of_nat n)"
    and "Math_round (100 * of_nat c / of_nat n) - 1 \<le> calcAccuracy matches checkFn"
    and "calcAccuracy matches checkFn \<le> Math_round (100 * of_nat c / of_nat n)"
proof -
  have "c \<le> n"
    unfolding assms(1,2) by (induction matches) auto
  from calculateAccuracy_exact_unless_tie [OF assms(3,4) this]
  show "(200 * c + n) mod (2 * n) \<noteq> 0 \<Longrightarrow>
           calcAccuracy matches checkFn = Math_round (100 * of_nat c / of_nat n)"
    and "Math_round (100 * of_nat c / of_nat n) - 1 \<le> calcAccuracy matches checkFn"
    and "calcAccuracy matches checkFn \<le> Math_round (100 * of_nat c / of_nat n)"
    by (simp_all add: calcAccuracy_counts assms(1,2))
qed

subsection \<open>Best league\<close>

text \<open>
  The \<^verbatim>\<open>reduce\<close> of \<^verbatim>\<open>getBestLeague\<close>: the result bounds every accuracy; it is the
  start value, or the first entry that reaches the highest accuracy, which then
  exceeds the start value.
\<close>

lemma fold_reduce_best:
  "fold (\<lambda>e best. reduce_best best e) es (l0, a0) = (l, a) \<Longrightarrow>
     (\<forall>e \<in> set es. league_acc (snd e) \<le> a) \<and>
     ((l, a) = (l0, a0) \<or>
      (\<exists>i<length es. l = fst (es ! i) \<and> a = league_acc (snd (es ! i)) \<and> a0 < a \<and>
         (\<forall>j<i. league_acc (snd (es ! j)) < a)))"
proof (induction es arbitrary: l a rule: rev_induct)
  case Nil
  then show ?case by simp
next
  case (snoc e es)
  obtain l1 a1 where prev: "fold (\<lambda>e best. reduce_best best e) es (l0, a0) = (l1, a1)"
    by (cases "fold (\<lambda>e best. reduce_best best e) es (l0, a0)") auto
  note ih = snoc.IH [OF prev]
  obtain league ct where e: "e = (league, ct)" by (cases e) auto
  have "fold (\<lambda>e best. reduce_best best e) (es @ [e]) (l0, a0) = reduce_best (l1, a1) e"
    using prev by simp
  with snoc.prems have "(l, a) = reduce_best (l1, a1) (league, ct)"
    using e by simp
  then have step:
    "(l, a) = (if a1 < league_acc ct then (league, league_acc ct) else (l1, a1))"
    by (simp add: reduce_best_def Let_def)
  show ?case
  proof (cases "a1 < league_acc ct")
    case True
    with step have la: "l = league" "a = league_acc ct" by auto
    have bound: "\<forall>x \<in> set (es @ [e]). league_acc (snd x) \<le> a"
      using ih True la e by fastforce
    have lower: "a0 \<le> a1" using ih by auto
    have "\<forall>j<length es. league_acc (snd (es ! j)) \<le> a1"
      using ih by simp
    then have earlier: "\<forall>j<length es. league_acc (snd ((es @ [e]) ! j)) < a"
      using True la by (auto simp: nth_append)
    have "length es < length (es @ [e]) \<and> l = fst ((es @ [e]) ! length es) \<and>
          a = league_acc (snd ((es @ [e]) ! length es)) \<and> a0 < a \<and>
          (\<forall>j<length es. league_acc (snd ((es @ [e]) ! j)) < a)"
      using la e True lower earlier by simp
    then show ?thesis using bound by blast
  next
    case False
    with step have la: "l = l1" "a = a1" by auto
    have bound: "\<forall>x \<in> set (es @ [e]). league_acc (snd x) \<le> a"
      using ih False la e by auto
    from ih have "(l1, a1) = (l0, a0) \<or>
      (\<exists>i<length es. l1 = fst (es ! i) \<and> a1 = league_acc (snd (es ! i)) \<and> a0 < a1 \<and>
         (\<forall>j<i. league_acc (snd (es ! j)) < a1))" by simp
    then show ?thesis
    proof
      assume "(l1, a1) = (l0, a0)"
      then show ?thesis using bound la by simp
    next
      assume "\<exists>i<length es. l1 = fst (es ! i) \<and> a1 = league_acc (snd (es ! i)) \<and> a0 < a1 \<and>
         (\<forall>j<i. league_acc (snd (es ! j)) < a1)"
      then obtain i where i: "i < length es" "l1 = fst (es ! i)"
        "a1 = league_acc (snd (es ! i))" "a0 < a1" "\<forall>j<i. league_acc (snd (es ! j)) < a1"
        by blast
      have "i < length (es @ [e]) \<and> l = fst ((es @ [e]) ! i) \<and>
            a = league_acc (snd ((es @ [e]) ! i)) \<and> a0 < a \<and>
            (\<forall>j<i. league_acc (snd ((es @ [e]) ! j)) < a)"
        using i la by (auto simp: nth_append)
      then show ?thesis using bound by blast
    qed
  qed
qed

text \<open>
  C7, as amended. When some group has an accuracy above zero, \<^verbatim>\<open>getBestLeague\<close>
  returns the league of the first entry, in the order of \<^verbatim>\<open>Object.entries\<close>, whose
  accuracy is the highest of all groups; when no group has an accuracy above zero,
  it returns the empty string.
\<close>

theorem getBestLeague_first_maximal:
  "((\<exists>e \<in> set (Object_entries (league_stats_of matches)). 0 < league_acc (snd e)) \<longrightarrow>
      (\<exists>i<length (Object_entries (league_stats_of matches)).
         getBestLeague matches = fst (Object_entries (league_stats_of matches) ! i) \<and>
         (\<forall>j<length (Object_entries (league_stats_of matches)).
            league_acc (snd (Object_entries (league_stats_of matches) ! j))
              \<le> league_acc (snd (Object_entries (league_stats_of matches) ! i))) \<and>
         (\<forall>j<i. league_acc (snd (Object_entries (league_stats_of matches) ! j))
              < league_acc (snd (Object_entries (league_stats_of matches) ! i))))) \<and>
   (\<not> (\<exists>e \<in> set (Object_entries (league_stats_of matches)). 0 < league_acc (snd e)) \<longrightarrow>
      getBestLeague matches = [])"
proof -
  define es where "es = Object_entries (league_stats_of matches)"
  obtain l a where res: "fold (\<lambda>e best. reduce_best best e) es ([], 0) = (l, a)"
    by (cases "fold (\<lambda>e best. reduce_best best e) es ([], 0)") auto
  have best: "getBestLeague matches = l"
    by (simp add: getBestLeague_def es_def [symmetric] res)
  note inv = fold_reduce_best [OF res]
  have bound: "\<forall>j<length es. league_acc (snd (es ! j)) \<le> a"
    using inv by simp
  have pos: "\<exists>i<length es. l = fst (es ! i) \<and>
         (\<forall>j<length es. league_acc (snd (es ! j)) \<le> league_acc (snd (es ! i))) \<and>
         (\<forall>j<i. league_acc (snd (es ! j)) < league_acc (snd (es ! i)))"
    if "\<exists>e \<in> set es. 0 < league_acc (snd e)"
  proof -
    from that inv have "(l, a) \<noteq> ([], 0)" by fastforce
    with inv obtain i where "i < length es" "l = fst (es ! i)" "a = league_acc (snd (es ! i))"
      "\<forall>j<i. league_acc (snd (es ! j)) < a" by blast
    with bound show ?thesis by blast
  qed
  have zero: "l = []" if "\<not> (\<exists>e \<in> set es. 0 < league_acc (snd e))"
  proof -
    have "\<not> (\<exists>i<length es. a = league_acc (snd (es ! i)) \<and> 0 < a)"
      using that by auto
    with inv show ?thesis by auto
  qed
  from pos zero show ?thesis unfolding best es_def by blast
qed

theorem getBestLeague_first_maximal_witness:
  "(\<exists>e \<in> set (Object_entries (league_stats_of
        [played 2 1 ''1'' ''Over 2.5'', played 3 1 ''1'' ''Over 2.5''\<lparr>country := ''Belgium''\<rparr>])).
      0 < league_acc (snd e)) \<and>
   getBestLeague [played 2 1 ''1'' ''Over 2.5'', played 3 1 ''1'' ''Over 2.5''\<lparr>country := ''Belgium''\<rparr>]
     = ''Austria'' \<and>
   (\<exists>i<length (Object_entries (league_stats_of
        [played 2 1 ''1'' ''Over 2.5'', played 3 1 ''1'' ''Over 2.5''\<lparr>country := ''Belgium''\<rparr>])).
      getBestLeague [played 2 1 ''1'' ''Over 2.5'', played 3 1 ''1'' ''Over 2.5''\<lparr>country := ''Belgium''\<rparr>]
        = fst (Object_entries (league_stats_of
        [played 2 1 ''1'' ''Over 2.5'', played 3 1 ''1'' ''Over 2.5''\<lparr>country := ''Belgium''\<rparr>]) ! i))"
proof -
  let ?ms = "[played 2 1 ''1'' ''Over 2.5'', played 3 1 ''1'' ''Over 2.5''\<lparr>country := ''Belgium''\<rparr>]"
  have h: "\<exists>e \<in> set (Object_entries (league_stats_of ?ms)). 0 < league_acc (snd e)"
    by code_simp
  have v: "getBestLeague ?ms = ''Austria''"
    by code_simp
  from getBestLeague_first_maximal [of ?ms] h v show ?thesis by blast
qed

text \<open>
  One league with one evaluated match, which was wrong: the accuracy 0 does not
  exceed the start value 0, and the result is the empty string, not the league.
\<close>

theorem getBestLeague_all_zero_counterexample:
  "Object_entries (league_stats_of [played 0 1 ''1'' ''Over 2.5'']) = [(''Austria'', 0, 1)] \<and>
   getBestLeague [played 0 1 ''1'' ''Over 2.5''] = [] \<and>
   getBestLeague [played 0 1 ''1'' ''Over 2.5'']
     \<notin> set (map fst (Object_entries (league_stats_of [played 0 1 ''1'' ''Over 2.5''])))"
  by code_simp

section \<open>Filter presets\<close>

lemma own_props_assign:
  "map_of (own_props (Object_assign obj src)) k =
     (if k = ''__proto__'' then map_of (own_props obj) k
      else case map_of (rev src) k of Some v \<Rightarrow> Some v | None \<Rightarrow> map_of (own_props obj) k)"
proof (induction src arbitrary: obj)
  case Nil
  then show ?case by (simp add: Object_assign_def)
next
  case (Cons p src)
  obtain k' v' where p: "p = (k', v')" by (cases p) auto
  have unfold: "Object_assign obj (p # src) = Object_assign (set_property obj k' v') src"
    by (simp add: Object_assign_def p)
  show ?case
    unfolding unfold Cons.IH
    by (auto simp: p set_property_def update_conv' map_add_def split: option.splits)
qed

lemma proto_assign:
  "''__proto__'' \<notin> fst ` set src \<Longrightarrow> proto (Object_assign obj src) = proto obj"
proof (induction src arbitrary: obj)
  case Nil
  then show ?case by (simp add: Object_assign_def)
next
  case (Cons p src)
  obtain k' v' where p: "p = (k', v')" by (cases p) auto
  have unfold: "Object_assign obj (p # src) = Object_assign (set_property obj k' v') src"
    by (simp add: Object_assign_def p)
  from Cons.prems have "''__proto__'' \<notin> fst ` set src" "k' \<noteq> ''__proto__''"
    by (auto simp: p)
  then show ?case
    unfolding unfold by (simp add: Cons.IH set_property_def)
qed

lemma distinct_assign:
  "distinct (map fst (own_props obj)) \<Longrightarrow> distinct (map fst (own_props (Object_assign obj src)))"
proof (induction src arbitrary: obj)
  case Nil
  then show ?case by (simp add: Object_assign_def)
next
  case (Cons p src)
  obtain k' v' where p: "p = (k', v')" by (cases p) auto
  have unfold: "Object_assign obj (p # src) = Object_assign (set_property obj k' v') src"
    by (simp add: Object_assign_def p)
  have "distinct (map fst (own_props (set_property obj k' v')))"
    using Cons.prems by (simp add: set_property_def distinct_update)
  then show ?case unfolding unfold by (rule Cons.IH)
qed

lemma no_own_proto_assign:
  "map_of (own_props obj) ''__proto__'' = None \<Longrightarrow>
   ''__proto__'' \<notin> fst ` set (own_props (Object_assign obj src))"
proof -
  assume "map_of (own_props obj) ''__proto__'' = None"
  then have "map_of (own_props (Object_assign obj src)) ''__proto__'' = None"
    by (simp add: own_props_assign)
  then show ?thesis
    by (metis map_of_eq_None_iff)
qed

lemma distinct_getDefaultPresets: "distinct (map fst getDefaultPresets)"
  by code_simp

lemma no_proto_getDefaultPresets: "map_of getDefaultPresets ''__proto__'' = None"
  by code_simp

lemma distinct_getAll: "distinct (map fst (own_props (getAll st)))"
  by (cases st) (simp_all add: getAll_def loadFromStorage_def distinct_assign distinct_getDefaultPresets)

lemma no_own_proto_getAll: "''__proto__'' \<notin> fst ` set (own_props (getAll st))"
  by (cases st)
     (simp_all add: getAll_def loadFromStorage_def no_own_proto_assign no_proto_getDefaultPresets)

lemma mset_Object_entries: "mset (Object_entries xs) = mset xs"
  by (induction xs) (auto simp: Object_entries_def)

lemma set_Object_entries: "set (Object_entries xs) = set xs"
  by (auto simp: Object_entries_def)

lemma distinct_Object_entries:
  assumes "distinct (map fst xs)"
  shows "distinct (map fst (Object_entries xs))"
proof -
  have "mset (map fst (Object_entries xs)) = mset (map fst xs)"
    by (simp add: mset_Object_entries)
  from mset_eq_imp_distinct_iff [OF this] show ?thesis
    using assms by simp
qed

lemma map_of_Object_entries:
  assumes "distinct (map fst xs)"
  shows "map_of (Object_entries xs) = map_of xs"
proof -
  have "distinct (map fst (Object_entries xs))"
    using assms by (rule distinct_Object_entries)
  from map_of_inject_set [OF this assms] show ?thesis
    by (simp add: set_Object_entries)
qed

lemma map_of_rev_distinct:
  assumes "distinct (map fst xs)"
  shows "map_of (rev xs) = map_of xs"
proof
  fix k
  have d: "distinct (map fst (rev xs))"
    using assms by (simp add: rev_map [symmetric])
  show "map_of (rev xs) k = map_of xs k"
  proof (cases "map_of xs k")
    case None
    then have "map_of (rev xs) k = None" by (simp add: map_of_eq_None_iff)
    with None show ?thesis by simp
  next
    case (Some v)
    then have "(k, v) \<in> set (rev xs)"
      using assms by (simp add: map_of_eq_Some_iff)
    then show ?thesis
      using d Some by (simp only: map_of_eq_Some_iff)
  qed
qed

lemma save_load_roundtrip:
  assumes "name \<noteq> ''__proto__''"
  shows "load name (save name currentFilters st) = Criteria currentFilters"
proof -
  define ps where
    "ps = Object_entries (AList.update name currentFilters (own_props (getAll st)))"
  have saved: "save name currentFilters st = Parsed ps"
    using assms by (simp add: save_def set_property_def ps_def)
  have d: "distinct (map fst (AList.update name currentFilters (own_props (getAll st))))"
    by (simp add: distinct_update distinct_getAll)
  then have "distinct (map fst ps)"
    unfolding ps_def by (rule distinct_Object_entries)
  then have "map_of (rev ps) name = map_of ps name"
    by (simp add: map_of_rev_distinct)
  also have "\<dots> = Some currentFilters"
    by (simp add: ps_def map_of_Object_entries [OF d] update_conv')
  finally have "map_of (own_props (getAll (Parsed ps))) name = Some currentFilters"
    using assms by (simp add: getAll_def loadFromStorage_def own_props_assign)
  then show ?thesis
    using assms by (simp add: saved load_def get_property_def)
qed

text \<open>
  C8. Saved under the name \<^verbatim>\<open>__proto__\<close>, the criteria become the prototype of the
  presets object and are not written to the storage; loading that name returns
  \<^verbatim>\<open>Object.prototype\<close>, not the criteria.
\<close>

theorem save_load_proto_name:
  "load ''__proto__'' (save ''__proto__''
      \<lparr>search = ''arsenal'', division = ''E0'', dateFrom = [], dateTo = []\<rparr> NoItem) = Builtin"
  by code_simp

text \<open>
  C9, as amended. After deleting a name that is not the name of a built-in preset,
  the name is not in the list of presets; when it is not the name of a property
  inherited from \<^verbatim>\<open>Object.prototype\<close> either, loading it returns \<^verbatim>\<open>null\<close>.
\<close>

theorem delete_then_load:
  "(name \<notin> set (map fst getDefaultPresets) \<longrightarrow> name \<notin> set (getNames (delete name st))) \<and>
   (name \<notin> set (map fst getDefaultPresets) \<and> name \<notin> set Object_prototype_names \<longrightarrow>
      load name (delete name st) = Null_value)"
proof -
  define ps where "ps = Object_entries (AList.delete name (own_props (getAll st)))"
  have deleted: "delete name st = Parsed ps"
    by (simp add: delete_def ps_def)
  have "name \<notin> fst ` set ps"
    unfolding ps_def set_Object_entries by (rule delete_notin_dom)
  then have absent: "map_of (rev ps) name = None"
    by (simp add: map_of_eq_None_iff)
  have "set (map fst (AList.delete name (own_props (getAll st))))
          \<subseteq> set (map fst (own_props (getAll st)))"
    by (simp only: delete_keys) auto
  then have "set (map fst ps) \<subseteq> set (map fst (own_props (getAll st)))"
    by (simp add: ps_def set_Object_entries)
  then have noproto: "''__proto__'' \<notin> fst ` set ps"
    using no_own_proto_getAll [of st] by auto
  have own: "map_of (own_props (getAll (Parsed ps))) name = None"
    if "name \<notin> set (map fst getDefaultPresets)"
  proof -
    from that have dflt: "map_of getDefaultPresets name = None"
      by (simp add: map_of_eq_None_iff)
    show ?thesis
      by (simp add: getAll_def loadFromStorage_def own_props_assign absent dflt
            no_proto_getDefaultPresets)
  qed
  have pr: "proto (getAll (Parsed ps)) = None"
    using noproto by (simp add: getAll_def loadFromStorage_def proto_assign)
  have names: "name \<notin> set (getNames (delete name st))"
    if "name \<notin> set (map fst getDefaultPresets)"
  proof -
    from own [OF that] have "name \<notin> fst ` set (own_props (getAll (Parsed ps)))"
      by (metis map_of_eq_None_iff)
    then show ?thesis by (simp add: getNames_def deleted)
  qed
  have ld: "load name (delete name st) = Null_value"
    if "name \<notin> set (map fst getDefaultPresets)" "name \<notin> set Object_prototype_names"
  proof -
    from that(2) have "name \<noteq> ''__proto__''"
      by (auto simp: Object_prototype_names_def)
    then show ?thesis
      using own [OF that(1)] pr that(2)
      by (simp add: load_def deleted get_property_def inherited_def)
  qed
  from names ld show ?thesis by blast
qed

theorem delete_then_load_witness:
  "''weekend'' \<notin> set (map fst getDefaultPresets) \<and>
   ''weekend'' \<notin> set Object_prototype_names \<and>
   ''weekend'' \<in> set (getNames (save ''weekend''
       \<lparr>search = ''arsenal'', division = ''E0'', dateFrom = [], dateTo = []\<rparr> NoItem)) \<and>
   ''weekend'' \<notin> set (getNames (delete ''weekend'' (save ''weekend''
       \<lparr>search = ''arsenal'', division = ''E0'', dateFrom = [], dateTo = []\<rparr> NoItem))) \<and>
   load ''weekend'' (delete ''weekend'' (save ''weekend''
       \<lparr>search = ''arsenal'', division = ''E0'', dateFrom = [], dateTo = []\<rparr> NoItem)) = Null_value"
proof -
  have n: "''weekend'' \<notin> set (map fst getDefaultPresets)"
    "''weekend'' \<notin> set Object_prototype_names"
    by code_simp+
  have s: "''weekend'' \<in> set (getNames (save ''weekend''
       \<lparr>search = ''arsenal'', division = ''E0'', dateFrom = [], dateTo = []\<rparr> NoItem))"
    by code_simp
  from delete_then_load [of "''weekend''" "save ''weekend''
       \<lparr>search = ''arsenal'', division = ''E0'', dateFrom = [], dateTo = []\<rparr> NoItem"] n s
  show ?thesis by blast
qed

text \<open>
  A built-in preset is merged in again by every \<^verbatim>\<open>getAll\<close>: after its deletion it is
  still loaded and still listed.
\<close>

theorem delete_default_preset_counterexample:
  "load ''High Draw Probability'' (delete ''High Draw Probability'' NoItem) =
     Criteria \<lparr>search = ''q:Object.values(models).some(model=>model.X > 0.7)'',
               division = ''all'', dateFrom = [], dateTo = []\<rparr> \<and>
   ''High Draw Probability'' \<in> set (getNames (delete ''High Draw Probability'' NoItem))"
  by code_simp

end
